theory Spec2Isabelle
  imports Main "HOL-Library.Word"
begin

section \<open>JavaScript strings and the built-ins the renderer calls\<close>

text \<open>
  A JavaScript string is a sequence of 16-bit code units. Literals of the source are
  written with \<open>js\<close>, which maps every (ASCII) character of an Isabelle string to
  its code unit.
\<close>

type_synonym jsstring = "16 word list"

definition js :: "string \<Rightarrow> jsstring" where
  "js s = map of_char s"

text \<open>
  The renderer can fail in two ways: a method call on \<open>null\<close>/\<open>undefined\<close>
  (\<open>TypeError\<close>) and \<open>encodeURIComponent\<close> on an unpaired surrogate (\<open>URIError\<close>).
  Neither is caught anywhere in the multi-tab renderer.
\<close>

datatype error = TypeError | URIError

datatype 'a result = Ok 'a | Throw error

subsection \<open>\<open>String.prototype.trim\<close>\<close>

text \<open>The code units ECMAScript counts as \<open>WhiteSpace\<close> or \<open>LineTerminator\<close>.\<close>

definition isWhiteSpace :: "16 word \<Rightarrow> bool" where
  "isWhiteSpace c =
     (c = 0x09 \<or> c = 0x0A \<or> c = 0x0B \<or> c = 0x0C \<or> c = 0x0D \<or> c = 0x20 \<or> c = 0xA0 \<or>
      c = 0x1680 \<or> (0x2000 \<le> c \<and> c \<le> 0x200A) \<or> c = 0x2028 \<or> c = 0x2029 \<or>
      c = 0x202F \<or> c = 0x205F \<or> c = 0x3000 \<or> c = 0xFEFF)"

definition trim :: "jsstring \<Rightarrow> jsstring" where
  "trim s = rev (dropWhile isWhiteSpace (rev (dropWhile isWhiteSpace s)))"

subsection \<open>\<open>String.prototype.includes\<close> with a one-character needle\<close>

definition includes_js :: "jsstring \<Rightarrow> 16 word \<Rightarrow> bool" where
  "includes_js s c = (c \<in> set s)"

subsection \<open>\<open>encodeURIComponent\<close>\<close>

text \<open>
  ECMAScript's \<open>Encode\<close> with the unreserved set of \<open>encodeURIComponent\<close>: letters,
  digits and \<open>- _ . ! ~ * ' ( )\<close> are copied; every other code point is written as the
  percent-escaped octets of its UTF-8 form; an unpaired surrogate throws \<open>URIError\<close>.
\<close>

definition isUnreserved :: "16 word \<Rightarrow> bool" where
  "isUnreserved c =
     ((0x41 \<le> c \<and> c \<le> 0x5A) \<or> (0x61 \<le> c \<and> c \<le> 0x7A) \<or> (0x30 \<le> c \<and> c \<le> 0x39) \<or>
      c = 0x2D \<or> c = 0x5F \<or> c = 0x2E \<or> c = 0x21 \<or> c = 0x7E \<or> c = 0x2A \<or>
      c = 0x27 \<or> c = 0x28 \<or> c = 0x29)"

definition isLeadSurrogate :: "16 word \<Rightarrow> bool" where
  "isLeadSurrogate c = (0xD800 \<le> c \<and> c \<le> 0xDBFF)"

definition isTrailSurrogate :: "16 word \<Rightarrow> bool" where
  "isTrailSurrogate c = (0xDC00 \<le> c \<and> c \<le> 0xDFFF)"

definition hexDigit :: "nat \<Rightarrow> 16 word" where
  "hexDigit d = (if d < 10 then 0x30 + of_nat d else 0x41 + of_nat (d - 10))"

definition percentOctet :: "nat \<Rightarrow> jsstring" where
  "percentOctet b = [0x25, hexDigit (b div 16), hexDigit (b mod 16)]"

definition utf8 :: "nat \<Rightarrow> nat list" where
  "utf8 cp =
     (if cp < 0x80 then [cp]
      else if cp < 0x800 then [0xC0 + cp div 64, 0x80 + cp mod 64]
      else if cp < 0x10000 then
        [0xE0 + cp div 4096, 0x80 + (cp div 64) mod 64, 0x80 + cp mod 64]
      else
        [0xF0 + cp div 262144, 0x80 + (cp div 4096) mod 64,
         0x80 + (cp div 64) mod 64, 0x80 + cp mod 64])"

definition surrogatePair :: "16 word \<Rightarrow> 16 word \<Rightarrow> nat" where
  "surrogatePair hi lo = (unat hi - 0xD800) * 0x400 + (unat lo - 0xDC00) + 0x10000"

definition escapeCodePoint :: "nat \<Rightarrow> jsstring" where
  "escapeCodePoint cp = concat (map percentOctet (utf8 cp))"

definition prepend :: "jsstring \<Rightarrow> jsstring result \<Rightarrow> jsstring result" where
  "prepend p r = (case r of Ok t \<Rightarrow> Ok (p @ t) | Throw e \<Rightarrow> Throw e)"

fun encodeURIComponent :: "jsstring \<Rightarrow> jsstring result" where
  "encodeURIComponent [] = Ok []"
| "encodeURIComponent [c] =
     (if isUnreserved c then Ok [c]
      else if isLeadSurrogate c \<or> isTrailSurrogate c then Throw URIError
      else Ok (escapeCodePoint (unat c)))"
| "encodeURIComponent (c # d # ds) =
     (if isUnreserved c then prepend [c] (encodeURIComponent (d # ds))
      else if isTrailSurrogate c then Throw URIError
      else if isLeadSurrogate c then
        (if isTrailSurrogate d
         then prepend (escapeCodePoint (surrogatePair c d)) (encodeURIComponent ds)
         else Throw URIError)
      else prepend (escapeCodePoint (unat c)) (encodeURIComponent (d # ds)))"

text \<open>
  \<open>String.prototype.isWellFormed\<close>: no surrogate stands without its partner. It is not
  called by the renderer; it says which inputs \<open>encodeURIComponent\<close> accepts.
\<close>

fun wellFormed :: "jsstring \<Rightarrow> bool" where
  "wellFormed [] = True"
| "wellFormed [c] = (\<not> isLeadSurrogate c \<and> \<not> isTrailSurrogate c)"
| "wellFormed (c # d # ds) =
     (if isTrailSurrogate c then False
      else if isLeadSurrogate c then isTrailSurrogate d \<and> wellFormed ds
      else wellFormed (d # ds))"

section \<open>The address formatter of the multi-tab renderer\<close>

text \<open>
  \<^verbatim>\<open>/^https?:\/\//i.test(url)\<close>: without the \<open>u\<close> flag, case-insensitive matching
  canonicalises single code units, and only the two ASCII cases of a letter share a
  canonical form with it.
\<close>

definition toLowerASCII :: "16 word \<Rightarrow> 16 word" where
  "toLowerASCII c = (if 0x41 \<le> c \<and> c \<le> 0x5A then c + 0x20 else c)"

definition startsWithCI :: "jsstring \<Rightarrow> jsstring \<Rightarrow> bool" where
  "startsWithCI p s = (map toLowerASCII (take (length p) s) = p)"

definition hasHttpScheme :: "jsstring \<Rightarrow> bool" where
  "hasHttpScheme url = (startsWithCI (js ''http://'') url \<or> startsWithCI (js ''https://'') url)"

definition searchPrefix :: jsstring where
  "searchPrefix = js ''https://www.google.com/search?q=''"

text \<open>
  \<^verbatim>\<open>
  function formatUrl(input) {
      if (!input) return 'home.html';
      let url = input.trim();
      if (url.includes(' ') || !url.includes('.'))
          return 'https://www.google.com/search?q=' + encodeURIComponent(url);
      if (!/^https?:\/\//i.test(url)) return 'https://' + url;
      return url;
  }
  \<close>
  The argument is always a string (the value of the address bar), so \<open>!input\<close> holds
  exactly for the empty string.
\<close>

definition formatUrl :: "jsstring \<Rightarrow> jsstring result" where
  "formatUrl input =
     (if input = [] then Ok (js ''home.html'')
      else
        let url = trim input in
        if includes_js url 0x20 \<or> \<not> includes_js url 0x2E
        then prepend searchPrefix (encodeURIComponent url)
        else if \<not> hasHttpScheme url then Ok (js ''https://'' @ url)
        else Ok url)"

section \<open>The multi-tab renderer: session state and the page\<close>

text \<open>
  The Tab records of \<open>state.tabs\<close>: \<^verbatim>\<open>{ id, url, title, isLoading }\<close>.
\<close>

record tab =
  id_tab :: jsstring
  url :: jsstring
  title :: jsstring
  isLoading :: bool

text \<open>
  The two kinds of element \<open>createTab\<close> adds to the page. A tab button carries its
  element id (\<open>btn-\<close> followed by the tab id), the \<open>active\<close> class and the text of its
  title span. A content view carries its element id (\<open>view-\<close> followed by the tab
  id), its \<open>display\<close> style and its \<open>src\<close> attribute. The content view itself is the
  platform's: what \<open>getURL()\<close>, \<open>canGoBack()\<close> and \<open>canGoForward()\<close> answer is
  a field the environment sets, and the methods the renderer invokes on a view are
  recorded in \<open>calls\<close>, since their effect arrives later as events.
\<close>

record tabButton =
  btn_id :: jsstring
  btn_active :: bool
  btn_title :: jsstring

datatype display = Unset | Flex | Hidden

datatype viewCall = GoBack | GoForward | Reload

record webview =
  view_id :: jsstring
  display :: display
  src :: jsstring
  getURL :: jsstring
  canGoBack :: bool
  canGoForward :: bool
  calls :: "viewCall list"

text \<open>
  The session state of the script together with the part of the page it reads and
  writes: the children of the tab bar and of the views container in document order, the
  address bar (its value and whether it is \<open>document.activeElement\<close>), the two history
  buttons, the classes of the loading bar, the window title, and the number of pending
  600 ms timers that clear the \<open>complete\<close> class. \<open>activeTabId\<close> and \<open>splitTabId\<close>
  start as \<open>null\<close>. The markup of the page is not among the sources: the elements
  of class \<open>tab\<close> are taken to be the children of the tab bar, the \<open>webview\<close>
  elements the children of the views container, and the static elements (which the
  script reads once, without a test) to be there. \<open>isSidebarOpen\<close> and
  \<open>metricsInterval\<close> are left out: no tab operation reads or writes them.
\<close>

record state =
  tabs :: "tab list"
  activeTabId :: "jsstring option"
  isSplitView :: bool
  splitTabId :: "jsstring option"
  tabBar :: "tabButton list"
  viewsContainer :: "webview list"
  urlInput_value :: jsstring
  urlInput_focused :: bool
  btnBack_disabled :: bool
  btnForward_disabled :: bool
  loadingBar_loading :: bool
  loadingBar_complete :: bool
  document_title :: jsstring
  pendingTimers :: nat

subsection \<open>Array and page primitives\<close>

text \<open>\<open>Array.prototype.findIndex\<close>: the first index that satisfies the test, else \<open>-1\<close>.\<close>

fun findIndex :: "('a \<Rightarrow> bool) \<Rightarrow> 'a list \<Rightarrow> int" where
  "findIndex P [] = -1"
| "findIndex P (x # xs) =
     (if P x then 0 else (let i = findIndex P xs in if i < 0 then -1 else i + 1))"

text \<open>
  \<open>Array.prototype.splice(start, 1)\<close>: a negative start counts from the end, so
  \<open>splice(-1, 1)\<close> deletes the last element.
\<close>

definition splice1 :: "int \<Rightarrow> 'a list \<Rightarrow> 'a list" where
  "splice1 i xs =
     (let len = int (length xs);
          start = (if i < 0 then max (len + i) 0 else min i len)
      in take (nat start) xs @ drop (nat start + 1) xs)"

text \<open>An indexed read \<open>xs[i]\<close>: \<open>undefined\<close> outside the array.\<close>

definition at :: "'a list \<Rightarrow> int \<Rightarrow> 'a option" where
  "at xs i = (if 0 \<le> i \<and> i < int (length xs) then Some (xs ! nat i) else None)"

text \<open>
  \<open>document.getElementById\<close> answers the first element in document order with the id;
  an update or a \<open>remove()\<close> through it touches that element only.
\<close>

fun updateFirst :: "('a \<Rightarrow> bool) \<Rightarrow> ('a \<Rightarrow> 'a) \<Rightarrow> 'a list \<Rightarrow> 'a list" where
  "updateFirst P f [] = []"
| "updateFirst P f (x # xs) = (if P x then f x # xs else x # updateFirst P f xs)"

fun removeFirst :: "('a \<Rightarrow> bool) \<Rightarrow> 'a list \<Rightarrow> 'a list" where
  "removeFirst P [] = []"
| "removeFirst P (x # xs) = (if P x then xs else x # removeFirst P xs)"

definition btnId :: "jsstring \<Rightarrow> jsstring" where
  "btnId tabId = js ''btn-'' @ tabId"

definition viewId :: "jsstring \<Rightarrow> jsstring" where
  "viewId tabId = js ''view-'' @ tabId"

text \<open>
  The two lookups below search the elements \<open>createTab\<close> has added. On the real page
  \<open>document.getElementById\<close> also finds a static element whose id happens to be
  \<open>btn-\<close> or \<open>view-\<close> followed by the argument (\<open>btn-back\<close>, the sidebar's
  \<open>view-\<close> panels); no id of the form \<open>tab-\<close> followed by digits names one.
\<close>

definition getButton :: "jsstring \<Rightarrow> state \<Rightarrow> tabButton option" where
  "getButton tabId s = find (\<lambda>b. btn_id b = btnId tabId) (tabBar s)"

definition getView :: "jsstring \<Rightarrow> state \<Rightarrow> webview option" where
  "getView tabId s = find (\<lambda>v. view_id v = viewId tabId) (viewsContainer s)"

text \<open>A template literal writes \<open>null\<close> as the four letters.\<close>

definition template :: "jsstring option \<Rightarrow> jsstring" where
  "template v = (case v of None \<Rightarrow> js ''null'' | Some x \<Rightarrow> x)"

text \<open>
  \<open>Number\<close> to string for an integral time value: decimal digits, with a minus sign
  below zero.
\<close>

fun digits :: "nat \<Rightarrow> jsstring" where
  "digits n = (if n < 10 then [0x30 + of_nat n] else digits (n div 10) @ [0x30 + of_nat (n mod 10)])"

declare digits.simps [simp del]

definition numberToString :: "int \<Rightarrow> jsstring" where
  "numberToString n = (if n < 0 then 0x2D # digits (nat (- n)) else digits (nat n))"

subsection \<open>TabManager\<close>

definition getActiveWebview :: "state \<Rightarrow> webview option" where
  "getActiveWebview s = getView (template (activeTabId s)) s"

definition updateNavigationButtons :: "state \<Rightarrow> state" where
  "updateNavigationButtons s =
     (case getActiveWebview s of
        None \<Rightarrow> s
      | Some w \<Rightarrow> s\<lparr>btnBack_disabled := \<not> canGoBack w, btnForward_disabled := \<not> canGoForward w\<rparr>)"

text \<open>
  \<open>switchTab\<close> writes \<open>activeTabId\<close> and clears every highlight before it looks the
  button up; \<open>classList\<close> of a missing button is a \<open>TypeError\<close>, raised with those
  writes done. An operation answers the error it raised, if any, and the state it left.
\<close>

definition switchTab :: "jsstring \<Rightarrow> state \<Rightarrow> error option \<times> state" where
  "switchTab tabId s =
     (let s1 = s\<lparr>activeTabId := Some tabId\<rparr>;
          s2 = s1\<lparr>tabBar := map (\<lambda>t. t\<lparr>btn_active := False\<rparr>) (tabBar s1)\<rparr>
      in case getButton tabId s2 of
           None \<Rightarrow> (Some TypeError, s2)
         | Some b \<Rightarrow>
             (let s3 = s2\<lparr>tabBar := updateFirst (\<lambda>t. btn_id t = btnId tabId)
                                       (\<lambda>t. t\<lparr>btn_active := True\<rparr>) (tabBar s2)\<rparr>;
                  s4 = s3\<lparr>viewsContainer :=
                            map (\<lambda>v. v\<lparr>display := (if view_id v = viewId tabId then Flex else Hidden)\<rparr>)
                              (viewsContainer s3)\<rparr>;
                  s5 = (case getActiveWebview s4 of
                          None \<Rightarrow> s4
                        | Some w \<Rightarrow> updateNavigationButtons (s4\<lparr>urlInput_value := getURL w\<rparr>));
                  s6 = (if isSplitView s5 \<and> splitTabId s5 \<noteq> None \<and> splitTabId s5 \<noteq> Some []
                        then (case getView (template (splitTabId s5)) s5 of
                                None \<Rightarrow> s5
                              | Some v \<Rightarrow>
                                  s5\<lparr>viewsContainer :=
                                       updateFirst (\<lambda>v. view_id v = viewId (template (splitTabId s5)))
                                         (\<lambda>v. v\<lparr>display := Flex\<rparr>) (viewsContainer s5)\<rparr>)
                        else s5)
              in (None, s6)))"

text \<open>
  \<open>createTab\<close> reads the clock once: \<open>now\<close> is what \<open>Date.now()\<close> answers, in
  milliseconds. The new view starts with no history; the address it reports is taken to
  be the one it was bound to.
\<close>

definition newTabButton :: "jsstring \<Rightarrow> tabButton" where
  "newTabButton tabId = \<lparr>btn_id = btnId tabId, btn_active = False, btn_title = js ''New Tab''\<rparr>"

definition newWebview :: "jsstring \<Rightarrow> jsstring \<Rightarrow> webview" where
  "newWebview tabId u =
     \<lparr>view_id = viewId tabId, display = Unset, src = u, getURL = u,
      canGoBack = False, canGoForward = False, calls = []\<rparr>"

definition createTab :: "jsstring \<Rightarrow> bool \<Rightarrow> int \<Rightarrow> state \<Rightarrow> jsstring result \<times> state" where
  "createTab u activate now s =
     (let tabId = js ''tab-'' @ numberToString now;
          tabData = \<lparr>id_tab = tabId, url = u, title = js ''New Tab'', isLoading = True\<rparr>;
          s1 = s\<lparr>tabs := tabs s @ [tabData]\<rparr>;
          s2 = s1\<lparr>tabBar := tabBar s1 @ [newTabButton tabId]\<rparr>;
          s3 = s2\<lparr>viewsContainer := viewsContainer s2 @ [newWebview tabId u]\<rparr>
      in if activate
         then (let r = switchTab tabId s3
               in (case fst r of Some e \<Rightarrow> Throw e | None \<Rightarrow> Ok tabId, snd r))
         else (Ok tabId, s3))"

text \<open>
  \<open>closeTab\<close>: the guard on the last tab, then \<open>findIndex\<close>, \<open>splice\<close>, the two
  \<open>remove()\<close> calls and the choice of the neighbour
  \<^verbatim>\<open>state.tabs[index] || state.tabs[index - 1]\<close>, each of which can raise.
\<close>

definition closeTab :: "jsstring \<Rightarrow> state \<Rightarrow> error option \<times> state" where
  "closeTab tabId s =
     (if length (tabs s) \<le> 1 then (None, s)
      else
        let index = findIndex (\<lambda>t. id_tab t = tabId) (tabs s);
            s1 = s\<lparr>tabs := splice1 index (tabs s)\<rparr>
        in case getButton tabId s1 of
             None \<Rightarrow> (Some TypeError, s1)
           | Some b \<Rightarrow>
               (let s2 = s1\<lparr>tabBar := removeFirst (\<lambda>t. btn_id t = btnId tabId) (tabBar s1)\<rparr>
                in case getView tabId s2 of
                     None \<Rightarrow> (Some TypeError, s2)
                   | Some v \<Rightarrow>
                       (let s3 = s2\<lparr>viewsContainer :=
                                      removeFirst (\<lambda>v. view_id v = viewId tabId) (viewsContainer s2)\<rparr>
                        in if activeTabId s3 = Some tabId
                           then (case at (tabs s3) index of
                                   Some nextTab \<Rightarrow> switchTab (id_tab nextTab) s3
                                 | None \<Rightarrow>
                                     (case at (tabs s3) (index - 1) of
                                        Some nextTab \<Rightarrow> switchTab (id_tab nextTab) s3
                                      | None \<Rightarrow> (Some TypeError, s3)))
                           else (None, s3))))"

text \<open>The handlers bound to a view's events; each closes over the tab id.\<close>

definition updateLoading :: "jsstring \<Rightarrow> bool \<Rightarrow> state \<Rightarrow> state" where
  "updateLoading tabId loading s =
     (if Some tabId = activeTabId s
      then updateNavigationButtons
             (if loading
              then s\<lparr>loadingBar_loading := True, loadingBar_complete := False\<rparr>
              else s\<lparr>loadingBar_loading := False, loadingBar_complete := True,
                     pendingTimers := pendingTimers s + 1\<rparr>)
      else s)"

definition timerFired :: "state \<Rightarrow> state" where
  "timerFired s =
     (if pendingTimers s = 0 then s
      else s\<lparr>loadingBar_complete := False, pendingTimers := pendingTimers s - 1\<rparr>)"

definition updateTitle :: "jsstring \<Rightarrow> jsstring \<Rightarrow> state \<Rightarrow> state" where
  "updateTitle tabId t s =
     (let s1 = (case getButton tabId s of
                  None \<Rightarrow> s
                | Some b \<Rightarrow>
                    s\<lparr>tabBar := updateFirst (\<lambda>b. btn_id b = btnId tabId)
                                  (\<lambda>b. b\<lparr>btn_title := (if t = [] then js ''Untitled'' else t)\<rparr>)
                                  (tabBar s)\<rparr>)
      in if Some tabId = activeTabId s1
         then s1\<lparr>document_title := t @ js '' - Zy Browser''\<rparr>
         else s1)"

definition updateUrl :: "jsstring \<Rightarrow> jsstring \<Rightarrow> state \<Rightarrow> state" where
  "updateUrl tabId u s =
     (if Some tabId = activeTabId s
      then updateNavigationButtons (s\<lparr>urlInput_value := u\<rparr>)
      else s)"

subsection \<open>Navigation helpers\<close>

definition invoke :: "viewCall \<Rightarrow> state \<Rightarrow> state" where
  "invoke c s =
     s\<lparr>viewsContainer :=
         updateFirst (\<lambda>v. view_id v = viewId (template (activeTabId s)))
           (\<lambda>v. v\<lparr>calls := calls v @ [c]\<rparr>) (viewsContainer s)\<rparr>"

definition goBack :: "state \<Rightarrow> state" where
  "goBack s =
     (case getActiveWebview s of
        None \<Rightarrow> s
      | Some w \<Rightarrow> if canGoBack w then invoke GoBack s else s)"

definition goForward :: "state \<Rightarrow> state" where
  "goForward s =
     (case getActiveWebview s of
        None \<Rightarrow> s
      | Some w \<Rightarrow> if canGoForward w then invoke GoForward s else s)"

definition reload :: "state \<Rightarrow> state" where
  "reload s = (case getActiveWebview s of None \<Rightarrow> s | Some w \<Rightarrow> invoke Reload s)"

definition navigateTo :: "jsstring \<Rightarrow> state \<Rightarrow> error option \<times> state" where
  "navigateTo u s =
     (case getActiveWebview s of
        None \<Rightarrow> (None, s)
      | Some w \<Rightarrow>
          (case formatUrl u of
             Throw e \<Rightarrow> (Some e, s)
           | Ok f \<Rightarrow>
               (None, s\<lparr>viewsContainer :=
                          updateFirst (\<lambda>v. view_id v = viewId (template (activeTabId s)))
                            (\<lambda>v. v\<lparr>src := f\<rparr>) (viewsContainer s)\<rparr>)))"

text \<open>The state the script starts from, before \<open>DOMContentLoaded\<close> creates the first tab.\<close>

definition initialState :: state where
  "initialState =
     \<lparr>tabs = [], activeTabId = None, isSplitView = False, splitTabId = None,
      tabBar = [], viewsContainer = [], urlInput_value = [], urlInput_focused = False,
      btnBack_disabled = False, btnForward_disabled = False,
      loadingBar_loading = False, loadingBar_complete = False,
      document_title = [], pendingTimers = 0\<rparr>"

section \<open>The single-view renderer\<close>

text \<open>
  The earlier renderer drives one content view, the page's \<open>webview\<close> element, which
  the script dereferences without a test everywhere, its initialisation included: the
  state has the view as a field. \<open>state.isLoading\<close> follows the view's loading
  events.
\<close>

record state_sv =
  webview_sv :: webview
  isLoading_sv :: bool
  urlInput_value_sv :: jsstring
  urlInput_focused_sv :: bool
  btnBack_disabled_sv :: bool
  btnForward_disabled_sv :: bool
  loadingBar_loading_sv :: bool
  loadingBar_complete_sv :: bool

text \<open>
  \<open>new URL(string)\<close> is the platform's parser. It is a parameter of the model: the
  protocol of the parsed address, or \<open>None\<close> where the constructor throws.
\<close>

type_synonym urlParser = "jsstring \<Rightarrow> jsstring option"

definition isValidUrl :: "urlParser \<Rightarrow> jsstring \<Rightarrow> bool" where
  "isValidUrl parse string =
     (case parse string of
        None \<Rightarrow> False
      | Some protocol \<Rightarrow> protocol = js ''http:'' \<or> protocol = js ''https:'')"

definition formatUrl_sv :: "urlParser \<Rightarrow> state_sv \<Rightarrow> jsstring \<Rightarrow> jsstring result" where
  "formatUrl_sv parse s raw =
     (let input = trim raw in
      if input = []
      then Ok (if src (webview_sv s) \<noteq> [] then src (webview_sv s) else js ''https://www.google.com'')
      else if isValidUrl parse input then Ok input
      else if includes_js input 0x2E \<and> \<not> includes_js input 0x20 then Ok (js ''https://'' @ input)
      else prepend searchPrefix (encodeURIComponent input))"

definition goBack_sv :: "state_sv \<Rightarrow> state_sv" where
  "goBack_sv s =
     (if canGoBack (webview_sv s)
      then s\<lparr>webview_sv := (webview_sv s)\<lparr>calls := calls (webview_sv s) @ [GoBack]\<rparr>\<rparr>
      else s)"

definition goForward_sv :: "state_sv \<Rightarrow> state_sv" where
  "goForward_sv s =
     (if canGoForward (webview_sv s)
      then s\<lparr>webview_sv := (webview_sv s)\<lparr>calls := calls (webview_sv s) @ [GoForward]\<rparr>\<rparr>
      else s)"

definition updateUrlBar :: "jsstring \<Rightarrow> state_sv \<Rightarrow> state_sv" where
  "updateUrlBar u s = (if \<not> urlInput_focused_sv s then s\<lparr>urlInput_value_sv := u\<rparr> else s)"

definition showLoading :: "state_sv \<Rightarrow> state_sv" where
  "showLoading s = s\<lparr>isLoading_sv := True, loadingBar_complete_sv := False, loadingBar_loading_sv := True\<rparr>"

definition hideLoading :: "state_sv \<Rightarrow> state_sv" where
  "hideLoading s = s\<lparr>isLoading_sv := False, loadingBar_loading_sv := False, loadingBar_complete_sv := True\<rparr>"

section \<open>States used as examples\<close>

text \<open>
  The session after \<open>DOMContentLoaded\<close> has created the first tab at clock reading 1,
  after a second tab bound to \<open>https://a.b\<close> at clock reading 2, and after a third
  bound to \<open>https://c.d\<close> at clock reading 3. Every \<open>createTab\<close> activates its tab.
\<close>

definition tabData :: "jsstring \<Rightarrow> jsstring \<Rightarrow> tab" where
  "tabData i u = \<lparr>id_tab = i, url = u, title = js ''New Tab'', isLoading = True\<rparr>"

definition shownButton :: "jsstring \<Rightarrow> bool \<Rightarrow> tabButton" where
  "shownButton i a = \<lparr>btn_id = btnId i, btn_active = a, btn_title = js ''New Tab''\<rparr>"

definition shownView :: "jsstring \<Rightarrow> jsstring \<Rightarrow> display \<Rightarrow> webview" where
  "shownView i u d =
     \<lparr>view_id = viewId i, display = d, src = u, getURL = u,
      canGoBack = False, canGoForward = False, calls = []\<rparr>"

definition oneTab :: state where
  "oneTab =
     \<lparr>tabs = [tabData (js ''tab-1'') (js ''home.html'')],
      activeTabId = Some (js ''tab-1''), isSplitView = False, splitTabId = None,
      tabBar = [shownButton (js ''tab-1'') True],
      viewsContainer = [shownView (js ''tab-1'') (js ''home.html'') Flex],
      urlInput_value = js ''home.html'', urlInput_focused = False,
      btnBack_disabled = True, btnForward_disabled = True,
      loadingBar_loading = False, loadingBar_complete = False,
      document_title = [], pendingTimers = 0\<rparr>"

definition twoTabs :: state where
  "twoTabs =
     \<lparr>tabs = [tabData (js ''tab-1'') (js ''home.html''), tabData (js ''tab-2'') (js ''https://a.b'')],
      activeTabId = Some (js ''tab-2''), isSplitView = False, splitTabId = None,
      tabBar = [shownButton (js ''tab-1'') False, shownButton (js ''tab-2'') True],
      viewsContainer = [shownView (js ''tab-1'') (js ''home.html'') Hidden,
                        shownView (js ''tab-2'') (js ''https://a.b'') Flex],
      urlInput_value = js ''https://a.b'', urlInput_focused = False,
      btnBack_disabled = True, btnForward_disabled = True,
      loadingBar_loading = False, loadingBar_complete = False,
      document_title = [], pendingTimers = 0\<rparr>"

definition threeTabs :: state where
  "threeTabs =
     \<lparr>tabs = [tabData (js ''tab-1'') (js ''home.html''), tabData (js ''tab-2'') (js ''https://a.b''),
              tabData (js ''tab-3'') (js ''https://c.d'')],
      activeTabId = Some (js ''tab-3''), isSplitView = False, splitTabId = None,
      tabBar = [shownButton (js ''tab-1'') False, shownButton (js ''tab-2'') False,
                shownButton (js ''tab-3'') True],
      viewsContainer = [shownView (js ''tab-1'') (js ''home.html'') Hidden,
                        shownView (js ''tab-2'') (js ''https://a.b'') Hidden,
                        shownView (js ''tab-3'') (js ''https://c.d'') Flex],
      urlInput_value = js ''https://c.d'', urlInput_focused = False,
      btnBack_disabled = True, btnForward_disabled = True,
      loadingBar_loading = False, loadingBar_complete = False,
      document_title = [], pendingTimers = 0\<rparr>"

text \<open>
  The well-formed page: the tab buttons and the content views are those of the Tab
  records, one each and in the same order.
\<close>

definition paired :: "state \<Rightarrow> bool" where
  "paired s =
     (map btn_id (tabBar s) = map (\<lambda>t. btnId (id_tab t)) (tabs s) \<and>
      map view_id (viewsContainer s) = map (\<lambda>t. viewId (id_tab t)) (tabs s))"

text \<open>The three-tab session with the middle tab activated by a click on its button.\<close>

definition threeTabsMiddle :: state where
  "threeTabsMiddle = snd (switchTab (js ''tab-2'') threeTabs)"

text \<open>The two-tab session while the user is typing into the focused address bar.\<close>

definition typing :: state where
  "typing = twoTabs\<lparr>urlInput_value := js ''exam'', urlInput_focused := True\<rparr>"

text \<open>The one-tab session after its view has reported a history entry to go back to.\<close>

definition withHistory :: state where
  "withHistory =
     oneTab\<lparr>viewsContainer :=
              [(shownView (js ''tab-1'') (js ''home.html'') Flex)\<lparr>canGoBack := True\<rparr>]\<rparr>"

definition page_sv :: "bool \<Rightarrow> state_sv" where
  "page_sv back =
     \<lparr>webview_sv = (shownView (js ''webview'') (js ''https://a.b'') Unset)\<lparr>canGoBack := back\<rparr>,
      isLoading_sv = False, urlInput_value_sv = js ''https://a.b'', urlInput_focused_sv = False,
      btnBack_disabled_sv = \<not> back, btnForward_disabled_sv = True,
      loadingBar_loading_sv = False, loadingBar_complete_sv = False\<rparr>"

section \<open>Facts about the primitives\<close>

lemma btnId_inj [simp]: "btnId a = btnId b \<longleftrightarrow> a = b"
  by (simp add: btnId_def)

lemma viewId_inj [simp]: "viewId a = viewId b \<longleftrightarrow> a = b"
  by (simp add: viewId_def)

lemma getButton_None_iff:
  "getButton tabId s = None \<longleftrightarrow> btnId tabId \<notin> btn_id ` set (tabBar s)"
  by (force simp: getButton_def find_None_iff image_iff)

lemma getView_None_iff:
  "getView tabId s = None \<longleftrightarrow> viewId tabId \<notin> view_id ` set (viewsContainer s)"
  by (force simp: getView_def find_None_iff image_iff)

lemma map_updateFirst_same: "(\<And>x. g (f x) = g x) \<Longrightarrow> map g (updateFirst P f xs) = map g xs"
  by (induction xs) auto

lemma find_updateFirst:
  "(\<And>x. P (f x) = P x) \<Longrightarrow> find P (updateFirst P f xs) = map_option f (find P xs)"
  by (induction xs) auto

lemma map_removeFirst: "map f (removeFirst (\<lambda>x. f x = k) xs) = remove1 k (map f xs)"
  by (induction xs) auto

lemma remove1_middle: "k \<notin> set ys \<Longrightarrow> remove1 k (ys @ k # zs) = ys @ zs"
  by (simp add: remove1_append)

lemma findIndex_none: "\<forall>x\<in>set xs. \<not> P x \<Longrightarrow> findIndex P xs = -1"
  by (induction xs) (auto simp: Let_def)

lemma findIndex_first:
  "\<forall>x\<in>set pre. \<not> P x \<Longrightarrow> P t \<Longrightarrow> findIndex P (pre @ t # post) = int (length pre)"
  by (induction pre) (auto simp: Let_def)

lemma splice1_middle: "splice1 (int (length pre)) (pre @ t # post) = pre @ post"
  by (simp add: splice1_def Let_def)

lemma splice1_last: "xs \<noteq> [] \<Longrightarrow> splice1 (-1) xs = butlast xs"
  by (cases xs rule: rev_cases) (auto simp: splice1_def Let_def)

lemma at_next:
  "at (pre @ post) (int (length pre)) = (case post of [] \<Rightarrow> None | n # _ \<Rightarrow> Some n)"
  by (cases post) (simp_all add: at_def nth_append)

lemma at_end: "at xs (int (length xs)) = None"
  by (simp add: at_def)

lemma at_previous: "pre \<noteq> [] \<Longrightarrow> at pre (int (length pre) - 1) = Some (last pre)"
  by (cases pre rule: rev_cases) (simp_all add: at_def nth_append)

section \<open>switchTab and createTab\<close>

lemma switchTab_tabs: "tabs (snd (switchTab tabId s)) = tabs s"
  by (simp add: switchTab_def updateNavigationButtons_def Let_def split: option.splits)

lemma switchTab_active: "activeTabId (snd (switchTab tabId s)) = Some tabId"
  by (simp add: switchTab_def updateNavigationButtons_def Let_def split: option.splits)

lemma switchTab_ok:
  "btnId tabId \<in> btn_id ` set (tabBar s) \<Longrightarrow> fst (switchTab tabId s) = None"
  by (auto simp: switchTab_def getButton_def Let_def find_None_iff image_iff split: option.splits)

lemma switchTab_paired: "paired s \<Longrightarrow> paired (snd (switchTab tabId s))"
  by (simp add: paired_def switchTab_def updateNavigationButtons_def Let_def
        map_updateFirst_same comp_def split: option.splits)

text \<open>
  The examples are what the code produces: each is the state \<open>createTab\<close> leaves when
  called on the one before.
\<close>

lemma oneTab_reached: "snd (createTab (js ''home.html'') True 1 initialState) = oneTab"
  by code_simp

lemma twoTabs_reached: "snd (createTab (js ''https://a.b'') True 2 oneTab) = twoTabs"
  by code_simp

lemma threeTabs_reached: "snd (createTab (js ''https://c.d'') True 3 twoTabs) = threeTabs"
  by code_simp

text \<open>\<open>createTab\<close> never raises, and the id it answers is a function of the clock alone.\<close>

lemma createTab_id: "fst (createTab u a now s) = Ok (js ''tab-'' @ numberToString now)"
  by (simp add: createTab_def Let_def switchTab_ok newTabButton_def)

lemma createTab_tabs:
  "tabs (snd (createTab u a now s)) =
     tabs s @ [\<lparr>id_tab = js ''tab-'' @ numberToString now, url = u,
                title = js ''New Tab'', isLoading = True\<rparr>]"
  by (simp add: createTab_def Let_def switchTab_tabs)

lemma createTab_paired:
  assumes p: "paired s"
  shows "paired (snd (createTab u a now s))"
proof -
  let ?tabId = "js ''tab-'' @ numberToString now"
  let ?s3 = "s\<lparr>tabs := tabs s @ [\<lparr>id_tab = ?tabId, url = u, title = js ''New Tab'', isLoading = True\<rparr>],
               tabBar := tabBar s @ [newTabButton ?tabId],
               viewsContainer := viewsContainer s @ [newWebview ?tabId u]\<rparr>"
  have p3: "paired ?s3"
    using p by (simp add: paired_def newTabButton_def newWebview_def)
  then have "paired (snd (switchTab ?tabId ?s3))"
    by (rule switchTab_paired)
  then show ?thesis
    using p3 by (cases a) (simp_all add: createTab_def Let_def)
qed

text \<open>
  Claim C1 asks that all ids \<open>createTab\<close> returns are pairwise distinct, also for calls
  within one scheduling tick. The id is \<open>tab-\<close> followed by the clock reading and
  nothing else: two calls that read the same millisecond, whatever the state and the
  arguments, return the same id, and the session then holds two Tab records with one id.
\<close>

theorem createTab_same_clock_same_id:
  "fst (createTab u2 a2 now (snd (createTab u1 a1 now s))) = fst (createTab u1 a1 now s) \<and>
   \<not> distinct (map id_tab (tabs (snd (createTab u2 a2 now (snd (createTab u1 a1 now s))))))"
  by (simp add: createTab_id createTab_tabs)

section \<open>closeTab\<close>

text \<open>
  Claim C3: in a state with exactly one tab, \<open>closeTab\<close> on any id is a no-op. It
  raises nothing and answers the state it was given, so the last tab stays open.
\<close>

theorem closeTab_last_tab_noop:
  "length (tabs s) = 1 \<Longrightarrow> closeTab tabId s = (None, s)"
  by (simp add: closeTab_def)

theorem closeTab_last_tab_noop_witness:
  "length (tabs oneTab) = 1 \<and> closeTab (js ''tab-1'') oneTab = (None, oneTab)"
proof -
  have h: "length (tabs oneTab) = 1"
    by (simp add: oneTab_def)
  show ?thesis
    using h closeTab_last_tab_noop [OF h, of "js ''tab-1''"] by simp
qed

text \<open>In every state \<open>closeTab\<close> removes at most one Tab record, and none from a sequence of one.\<close>

lemma closeTab_never_empties:
  assumes "tabs s \<noteq> []"
  shows "tabs (snd (closeTab tabId s)) \<noteq> []"
proof (cases "length (tabs s) \<le> 1")
  case True
  then show ?thesis using assms by (simp add: closeTab_def)
next
  case False
  let ?i = "findIndex (\<lambda>t. id_tab t = tabId) (tabs s)"
  have "length (splice1 ?i (tabs s)) \<ge> length (tabs s) - 1"
    by (simp add: splice1_def Let_def)
  then have ne: "splice1 ?i (tabs s) \<noteq> []"
    using False by auto
  show ?thesis
    using False ne
    by (simp add: closeTab_def Let_def switchTab_tabs split: option.splits)
qed

text \<open>
  Closing a live tab on a well-formed page: the first Tab record with the id goes, with
  its button and its view; the page stays well-formed; and when the tab was the active
  one, the rest is \<open>switchTab\<close> on the neighbour.
\<close>

lemma closeTab_live:
  assumes p: "paired s" and split: "tabs s = pre @ t # post" and t: "id_tab t = tabId"
    and first: "tabId \<notin> id_tab ` set pre" and more: "pre @ post \<noteq> []"
  shows "closeTab tabId s =
     (let s3 = s\<lparr>tabs := pre @ post,
                 tabBar := removeFirst (\<lambda>b. btn_id b = btnId tabId) (tabBar s),
                 viewsContainer := removeFirst (\<lambda>v. view_id v = viewId tabId) (viewsContainer s)\<rparr>
      in if activeTabId s = Some tabId
         then switchTab (id_tab (case post of [] \<Rightarrow> last pre | n # _ \<Rightarrow> n)) s3
         else (None, s3))"
    and "paired (s\<lparr>tabs := pre @ post,
                 tabBar := removeFirst (\<lambda>b. btn_id b = btnId tabId) (tabBar s),
                 viewsContainer := removeFirst (\<lambda>v. view_id v = viewId tabId) (viewsContainer s)\<rparr>)"
proof -
  have len: "\<not> length (tabs s) \<le> 1"
    using split more by (cases pre; cases post) auto
  have idx: "findIndex (\<lambda>t. id_tab t = tabId) (tabs s) = int (length pre)"
  proof -
    have "\<forall>x\<in>set pre. \<not> id_tab x = tabId"
      using first by force
    then show ?thesis
      unfolding split using t by (intro findIndex_first) simp_all
  qed
  have btns: "map btn_id (tabBar s) =
      map (\<lambda>t. btnId (id_tab t)) pre @ btnId tabId # map (\<lambda>t. btnId (id_tab t)) post"
    using p split t by (simp add: paired_def)
  have views: "map view_id (viewsContainer s) =
      map (\<lambda>t. viewId (id_tab t)) pre @ viewId tabId # map (\<lambda>t. viewId (id_tab t)) post"
    using p split t by (simp add: paired_def)
  have b: "btnId tabId \<in> btn_id ` set (tabBar s)"
    using btns by (metis in_set_conv_decomp list.set_map)
  have v: "viewId tabId \<in> view_id ` set (viewsContainer s)"
    using views by (metis in_set_conv_decomp list.set_map)
  have nb: "btnId tabId \<notin> set (map (\<lambda>t. btnId (id_tab t)) pre)"
    using first by auto
  have nv: "viewId tabId \<notin> set (map (\<lambda>t. viewId (id_tab t)) pre)"
    using first by auto
  show "paired (s\<lparr>tabs := pre @ post,
                 tabBar := removeFirst (\<lambda>b. btn_id b = btnId tabId) (tabBar s),
                 viewsContainer := removeFirst (\<lambda>v. view_id v = viewId tabId) (viewsContainer s)\<rparr>)"
    by (simp add: paired_def map_removeFirst btns views remove1_middle[OF nb] remove1_middle[OF nv])
  have gb: "getButton tabId (s\<lparr>tabs := pre @ post\<rparr>) \<noteq> None"
    using b by (simp add: getButton_None_iff)
  have gv: "getView tabId (s\<lparr>tabs := pre @ post,
               tabBar := removeFirst (\<lambda>b. btn_id b = btnId tabId) (tabBar s)\<rparr>) \<noteq> None"
    using v by (simp add: getView_None_iff)
  have nx: "(case at (pre @ post) (int (length pre)) of
               Some nextTab \<Rightarrow> Some nextTab
             | None \<Rightarrow> at (pre @ post) (int (length pre) - 1)) =
            Some (case post of [] \<Rightarrow> last pre | n # _ \<Rightarrow> n)"
  proof (cases post)
    case Nil
    then have "pre \<noteq> []" using more by simp
    then show ?thesis using Nil by (simp add: at_end at_previous)
  next
    case (Cons n ns)
    then show ?thesis by (simp add: at_next)
  qed
  show "closeTab tabId s =
     (let s3 = s\<lparr>tabs := pre @ post,
                 tabBar := removeFirst (\<lambda>b. btn_id b = btnId tabId) (tabBar s),
                 viewsContainer := removeFirst (\<lambda>v. view_id v = viewId tabId) (viewsContainer s)\<rparr>
      in if activeTabId s = Some tabId
         then switchTab (id_tab (case post of [] \<Rightarrow> last pre | n # _ \<Rightarrow> n)) s3
         else (None, s3))"
    using len idx gb gv nx
    by (auto simp: closeTab_def Let_def split splice1_middle split: option.splits)
qed

text \<open>
  So the page stays well-formed through every \<open>createTab\<close>, every \<open>switchTab\<close>
  and every \<open>closeTab\<close> of a live tab, from the start on.
\<close>

lemma paired_initialState: "paired initialState"
  by (simp add: paired_def initialState_def)

lemma closeTab_paired:
  assumes p: "paired s" and live: "tabId \<in> id_tab ` set (tabs s)"
  shows "paired (snd (closeTab tabId s))"
proof (cases "length (tabs s) \<le> 1")
  case True
  then show ?thesis
    using p by (simp add: closeTab_def)
next
  case False
  from live have "\<exists>x\<in>set (tabs s). id_tab x = tabId"
    by auto
  then obtain pre t post where split: "tabs s = pre @ t # post" and t: "id_tab t = tabId"
      and first: "\<forall>y\<in>set pre. id_tab y \<noteq> tabId"
    by (auto dest!: split_list_first_prop)
  from first have first': "tabId \<notin> id_tab ` set pre"
    by auto
  from False split have more: "pre @ post \<noteq> []"
    by auto
  let ?s3 = "s\<lparr>tabs := pre @ post,
               tabBar := removeFirst (\<lambda>b. btn_id b = btnId tabId) (tabBar s),
               viewsContainer := removeFirst (\<lambda>v. view_id v = viewId tabId) (viewsContainer s)\<rparr>"
  have p3: "paired ?s3"
    by (rule closeTab_live(2)[OF p split t first' more])
  show ?thesis
  proof (cases "activeTabId s = Some tabId")
    case True
    then show ?thesis
      using closeTab_live(1)[OF p split t first' more] switchTab_paired[OF p3]
      by (simp add: Let_def)
  next
    case False
    then show ?thesis
      using closeTab_live(1)[OF p split t first' more] p3
      by (simp add: Let_def)
  qed
qed

text \<open>
  Claim C4: with at least two tabs, closing the active tab activates the tab that takes
  over its index, or the one before it when the closed tab was the last. The tab
  sequence is \<open>pre @ t # post\<close> with \<open>t\<close> the closed tab (the first with its id):
  afterwards the sequence is \<open>pre @ post\<close>, nothing was raised, and the active id is
  that of the head of \<open>post\<close>, or of the last of \<open>pre\<close> when \<open>post\<close> is empty.
\<close>

theorem closeTab_active_selects_neighbour:
  assumes "paired s" and "tabs s = pre @ t # post" and "id_tab t = tabId"
    and "tabId \<notin> id_tab ` set pre" and "pre @ post \<noteq> []" and "activeTabId s = Some tabId"
  shows "fst (closeTab tabId s) = None \<and>
         tabs (snd (closeTab tabId s)) = pre @ post \<and>
         activeTabId (snd (closeTab tabId s)) =
           Some (id_tab (case post of [] \<Rightarrow> last pre | n # _ \<Rightarrow> n))"
proof -
  let ?s3 = "s\<lparr>tabs := pre @ post,
                 tabBar := removeFirst (\<lambda>b. btn_id b = btnId tabId) (tabBar s),
                 viewsContainer := removeFirst (\<lambda>v. view_id v = viewId tabId) (viewsContainer s)\<rparr>"
  let ?n = "case post of [] \<Rightarrow> last pre | n # _ \<Rightarrow> n"
  have c: "closeTab tabId s = switchTab (id_tab ?n) ?s3"
    using closeTab_live(1)[OF assms(1-5)] assms(6) by (simp add: Let_def)
  have p3: "paired ?s3"
    by (rule closeTab_live(2)[OF assms(1-5)])
  have eq: "map btn_id (removeFirst (\<lambda>b. btn_id b = btnId tabId) (tabBar s)) =
            map (\<lambda>t. btnId (id_tab t)) (pre @ post)"
    using p3 by (simp add: paired_def)
  have "?n \<in> set (pre @ post)"
    using assms(5) by (cases post) auto
  then have "btnId (id_tab ?n) \<in> (\<lambda>t. btnId (id_tab t)) ` set (pre @ post)"
    by (rule imageI)
  also have "\<dots> = set (map btn_id (removeFirst (\<lambda>b. btn_id b = btnId tabId) (tabBar s)))"
    by (simp only: eq set_map)
  finally have "btnId (id_tab ?n) \<in> btn_id ` set (tabBar ?s3)"
    by simp
  then have "fst (switchTab (id_tab ?n) ?s3) = None"
    by (rule switchTab_ok)
  then show ?thesis
    by (simp add: c switchTab_tabs switchTab_active)
qed

text \<open>
  The examples of the claim: of the tabs 1, 2, 3, closing the active tab 2 activates
  tab 3, and closing the active tab 3 activates tab 2.
\<close>

theorem closeTab_active_selects_neighbour_witness:
  "activeTabId threeTabsMiddle = Some (js ''tab-2'') \<and>
   fst (closeTab (js ''tab-2'') threeTabsMiddle) = None \<and>
   activeTabId (snd (closeTab (js ''tab-2'') threeTabsMiddle)) = Some (js ''tab-3'') \<and>
   activeTabId threeTabs = Some (js ''tab-3'') \<and>
   fst (closeTab (js ''tab-3'') threeTabs) = None \<and>
   activeTabId (snd (closeTab (js ''tab-3'') threeTabs)) = Some (js ''tab-2'')"
proof -
  let ?A = "tabData (js ''tab-1'') (js ''home.html'')"
  let ?B = "tabData (js ''tab-2'') (js ''https://a.b'')"
  let ?C = "tabData (js ''tab-3'') (js ''https://c.d'')"
  have p3: "paired threeTabs"
    by (simp add: paired_def threeTabs_def tabData_def shownButton_def shownView_def)
  have pm: "paired threeTabsMiddle"
    unfolding threeTabsMiddle_def using p3 by (rule switchTab_paired)
  have tm: "tabs threeTabsMiddle = [?A] @ ?B # [?C]"
    by (simp add: threeTabsMiddle_def switchTab_tabs threeTabs_def)
  have t3: "tabs threeTabs = [?A, ?B] @ ?C # []"
    by (simp add: threeTabs_def)
  have am: "activeTabId threeTabsMiddle = Some (js ''tab-2'')"
    by (simp add: threeTabsMiddle_def switchTab_active)
  have a3: "activeTabId threeTabs = Some (js ''tab-3'')"
    by (simp add: threeTabs_def)
  have iB: "id_tab ?B = js ''tab-2''" and iC: "id_tab ?C = js ''tab-3''"
    by (simp_all add: tabData_def)
  have fB: "js ''tab-2'' \<notin> id_tab ` set [?A]"
    by (simp add: tabData_def js_def)
  have fC: "js ''tab-3'' \<notin> id_tab ` set [?A, ?B]"
    by (simp add: tabData_def js_def)
  have "[?A] @ [?C] \<noteq> []" and "[?A, ?B] @ [] \<noteq> []"
    by simp_all
  from closeTab_active_selects_neighbour [OF pm tm iB fB this(1) am]
       closeTab_active_selects_neighbour [OF p3 t3 iC fC this(2) a3]
  show ?thesis
    using am a3 by (simp add: tabData_def)
qed


section \<open>Tab ids and the clock\<close>

text \<open>
  The decimal form of a clock reading determines the reading, so two calls of
  \<open>createTab\<close> return different ids exactly when their clock readings differ.
\<close>

lemma digits_nonempty: "digits n \<noteq> []"
  by (subst digits.simps) simp

lemma digit_char_inj: "a < 10 \<Longrightarrow> b < 10 \<Longrightarrow> (0x30 + of_nat a :: 16 word) = 0x30 + of_nat b \<Longrightarrow> a = b"
proof -
  assume a: "a < 10" and b: "b < 10" and e: "(0x30 + of_nat a :: 16 word) = 0x30 + of_nat b"
  from e have "(of_nat a :: 16 word) = of_nat b" by simp
  then have "take_bit 16 a = take_bit 16 b" by (simp only: word_of_nat_eq_iff) simp
  moreover have "take_bit 16 a = a" using a by (intro take_bit_nat_eq_self) simp
  moreover have "take_bit 16 b = b" using b by (intro take_bit_nat_eq_self) simp
  ultimately show "a = b" by simp
qed

lemma digit_not_minus: "n < 10 \<Longrightarrow> (0x30 + of_nat n :: 16 word) \<noteq> 0x2D"
proof
  assume n: "n < 10" and e: "(0x30 + of_nat n :: 16 word) = 0x2D"
  have "unat (0x30 + of_nat n :: 16 word) = 48 + n"
    using n by (simp add: unat_word_ariths unat_of_nat)
  moreover from e have "unat (0x30 + of_nat n :: 16 word) = unat (0x2D :: 16 word)"
    by (rule arg_cong)
  ultimately have "48 + n = unat (0x2D :: 16 word)" by (simp only:)
  then show False by simp
qed

lemma digits_inj: "digits n = digits m \<Longrightarrow> n = m"
proof (induction n arbitrary: m rule: digits.induct)
  case (1 n)
  show ?case
  proof (cases "n < 10")
    case True
    then have dn: "digits n = [0x30 + of_nat n]" by (subst digits.simps) simp
    show ?thesis
    proof (cases "m < 10")
      case True
      then have "digits m = [0x30 + of_nat m]" by (subst digits.simps) simp
      then show ?thesis using dn "1.prems" \<open>n < 10\<close> True by (auto dest: digit_char_inj)
    next
      case False
      then have "digits m = digits (m div 10) @ [0x30 + of_nat (m mod 10)]" by (subst digits.simps) simp
      then show ?thesis using dn "1.prems" digits_nonempty[of "m div 10"] by auto
    qed
  next
    case False
    then have dn: "digits n = digits (n div 10) @ [0x30 + of_nat (n mod 10)]" by (subst digits.simps) simp
    show ?thesis
    proof (cases "m < 10")
      case True
      then have "digits m = [0x30 + of_nat m]" by (subst digits.simps) simp
      then show ?thesis using dn "1.prems" digits_nonempty[of "n div 10"] by auto
    next
      case F2: False
      then have dm: "digits m = digits (m div 10) @ [0x30 + of_nat (m mod 10)]" by (subst digits.simps) simp
      from dn dm "1.prems" have a: "digits (n div 10) = digits (m div 10)"
        and b: "(0x30 + of_nat (n mod 10) :: 16 word) = 0x30 + of_nat (m mod 10)" by auto
      from "1.IH"[OF False a] have "n div 10 = m div 10" .
      moreover from b have "n mod 10 = m mod 10" by (intro digit_char_inj) auto
      ultimately show ?thesis by (metis div_mult_mod_eq)
    qed
  qed
qed

lemma hd_digits: "hd (digits n) \<noteq> (0x2D :: 16 word)"
proof (induction n rule: digits.induct)
  case (1 n)
  show ?case
  proof (cases "n < 10")
    case True
    then have "digits n = [0x30 + of_nat n]" by (subst digits.simps) simp
    then show ?thesis using digit_not_minus[OF True] by simp
  next
    case False
    then have "digits n = digits (n div 10) @ [0x30 + of_nat (n mod 10)]" by (subst digits.simps) simp
    then show ?thesis using "1.IH"[OF False] digits_nonempty[of "n div 10"] by simp
  qed
qed

lemma minus_digits: "0x2D # digits n \<noteq> digits m"
proof
  assume "0x2D # digits n = digits m"
  then have "hd (0x2D # digits n) = hd (digits m)"
    by (rule arg_cong)
  then show False
    using hd_digits[of m] by simp
qed

lemma numberToString_inj: "numberToString a = numberToString b \<Longrightarrow> a = b"
proof -
  assume e: "numberToString a = numberToString b"
  show "a = b"
  proof (cases "a < 0"; cases "b < 0")
    assume "a < 0" "b < 0"
    with e have "digits (nat (- a)) = digits (nat (- b))" by (simp add: numberToString_def)
    then have "nat (- a) = nat (- b)" by (rule digits_inj)
    with \<open>a < 0\<close> \<open>b < 0\<close> show ?thesis by simp
  next
    assume "a < 0" "\<not> b < 0"
    with e minus_digits show ?thesis by (simp add: numberToString_def)
  next
    assume "\<not> a < 0" "b < 0"
    with e minus_digits[symmetric] show ?thesis by (simp add: numberToString_def)
  next
    assume "\<not> a < 0" "\<not> b < 0"
    with e have "digits (nat a) = digits (nat b)" by (simp add: numberToString_def)
    then have "nat a = nat b" by (rule digits_inj)
    with \<open>\<not> a < 0\<close> \<open>\<not> b < 0\<close> show ?thesis by simp
  qed
qed

lemma createTab_ids_differ_iff:
  "fst (createTab u1 a1 now1 s1) = fst (createTab u2 a2 now2 s2) \<longleftrightarrow> now1 = now2"
  by (auto simp: createTab_id dest: numberToString_inj)

section \<open>Operations on an id that names no live tab\<close>

text \<open>
  Where the page has no button for the id, \<open>switchTab\<close> raises after it has made the
  id the active one and cleared every highlight. Where neither a Tab record nor a button
  has the id and two or more tabs are open, \<open>closeTab\<close> raises after \<open>splice(-1, 1)\<close>
  has dropped the last Tab record, whose button and view stay on the page.
\<close>

lemma switchTab_missing_button:
  "btnId tabId \<notin> btn_id ` set (tabBar s) \<Longrightarrow>
   switchTab tabId s =
     (Some TypeError,
      s\<lparr>activeTabId := Some tabId, tabBar := map (\<lambda>t. t\<lparr>btn_active := False\<rparr>) (tabBar s)\<rparr>)"
  by (auto simp: switchTab_def getButton_def Let_def find_None_iff image_iff split: option.splits)

lemma closeTab_stale:
  assumes "tabId \<notin> id_tab ` set (tabs s)" and "2 \<le> length (tabs s)"
    and "btnId tabId \<notin> btn_id ` set (tabBar s)"
  shows "closeTab tabId s = (Some TypeError, s\<lparr>tabs := butlast (tabs s)\<rparr>)"
proof -
  have "\<forall>x\<in>set (tabs s). \<not> id_tab x = tabId"
    using assms(1) by force
  then have i: "findIndex (\<lambda>t. id_tab t = tabId) (tabs s) = -1"
    by (rule findIndex_none)
  have ne: "tabs s \<noteq> []"
    using assms(2) by auto
  have g: "getButton tabId (s\<lparr>tabs := butlast (tabs s)\<rparr>) = None"
    using assms(3) by (simp add: getButton_None_iff)
  show ?thesis
    using assms(2) i g by (simp add: closeTab_def Let_def splice1_last[OF ne])
qed

text \<open>
  Claim C2 asks that \<open>switchTab\<close> and \<open>closeTab\<close> on an id that references no live
  tab neither raise nor change the tab sequence, \<open>activeTabId\<close> or the paired
  elements. In the two-tab session, with the id \<open>tab-9\<close> that no tab has, both raise
  \<open>TypeError\<close>; \<open>closeTab\<close> has by then removed the record of tab 2, and
  \<open>switchTab\<close> has set \<open>activeTabId\<close> to \<open>tab-9\<close> and left no button highlighted.
\<close>

theorem stale_tab_id_raises:
  "closeTab (js ''tab-9'') twoTabs =
     (Some TypeError, twoTabs\<lparr>tabs := [tabData (js ''tab-1'') (js ''home.html'')]\<rparr>) \<and>
   switchTab (js ''tab-9'') twoTabs =
     (Some TypeError,
      twoTabs\<lparr>activeTabId := Some (js ''tab-9''),
              tabBar := [shownButton (js ''tab-1'') False, shownButton (js ''tab-2'') False]\<rparr>)"
  by code_simp

section \<open>The address formatter\<close>

lemma unreserved_not_surrogate:
  "isUnreserved c \<Longrightarrow> \<not> isLeadSurrogate c \<and> \<not> isTrailSurrogate c"
  unfolding isUnreserved_def isLeadSurrogate_def isTrailSurrogate_def
  by (auto simp: word_le_nat_alt)

lemma prepend_Throw [simp]: "prepend p r = Throw e \<longleftrightarrow> r = Throw e"
  by (cases r) (simp_all add: prepend_def)

lemma encodeURIComponent_error: "encodeURIComponent s = Throw e \<Longrightarrow> e = URIError"
  by (induction s rule: encodeURIComponent.induct) (auto split: if_splits)

lemma encodeURIComponent_throws_iff:
  "encodeURIComponent s = Throw URIError \<longleftrightarrow> \<not> wellFormed s"
  by (induction s rule: encodeURIComponent.induct)
     (auto dest: unreserved_not_surrogate split: if_splits)

lemma formatUrl_throws_iff:
  "formatUrl input = Throw URIError \<longleftrightarrow>
     input \<noteq> [] \<and> (includes_js (trim input) 0x20 \<or> \<not> includes_js (trim input) 0x2E) \<and>
     \<not> wellFormed (trim input)"
  by (auto simp: formatUrl_def Let_def encodeURIComponent_throws_iff)

lemma formatUrl_total_iff:
  "(\<exists>r. formatUrl input = Ok r) \<longleftrightarrow>
     \<not> (input \<noteq> [] \<and> (includes_js (trim input) 0x20 \<or> \<not> includes_js (trim input) 0x2E) \<and>
        \<not> wellFormed (trim input))"
proof -
  have "(\<exists>r. formatUrl input = Ok r) \<longleftrightarrow> formatUrl input \<noteq> Throw URIError"
  proof (cases "formatUrl input")
    case (Ok r)
    then show ?thesis by simp
  next
    case (Throw e)
    then have "e = URIError"
      by (auto simp: formatUrl_def Let_def dest: encodeURIComponent_error split: if_splits)
    with Throw show ?thesis by simp
  qed
  then show ?thesis
    by (simp only: formatUrl_throws_iff)
qed

lemma formatUrl_empty: "formatUrl [] = Ok (js ''home.html'')"
  by (simp add: formatUrl_def)

lemma formatUrl_sv_blank:
  "trim raw = [] \<Longrightarrow>
   formatUrl_sv parse s raw =
     Ok (if src (webview_sv s) \<noteq> [] then src (webview_sv s) else js ''https://www.google.com'')"
  by (simp add: formatUrl_sv_def)

lemma formatUrl_sv_valid:
  "trim raw \<noteq> [] \<Longrightarrow> isValidUrl parse (trim raw) \<Longrightarrow> formatUrl_sv parse s raw = Ok (trim raw)"
  by (simp add: formatUrl_sv_def)

text \<open>
  Claim C6 asks that an empty or whitespace-only input gives the home address in the
  current formatter (and the loaded address in the earlier one). The empty string does
  (\<open>formatUrl_empty\<close>), and the earlier formatter trims before it tests
  (\<open>formatUrl_sv_blank\<close>). The current one tests before it trims: three spaces are
  not the empty string, trim to it, contain no dot, and come back as the search address
  with an empty query.
\<close>

theorem blank_input_becomes_search:
  "formatUrl (js ''   '') = Ok (js ''https://www.google.com/search?q='')"
  by code_simp

text \<open>
  Claim C7 asks that an absolute \<open>http\<close> or \<open>https\<close> address is returned unchanged,
  \<open>https://localhost\<close> included. The earlier formatter asks the parser first
  (\<open>formatUrl_sv_valid\<close>). The current one looks for a dot before it looks at the
  scheme, so the claim's own example is escaped and appended to the search address.
\<close>

theorem dotless_http_url_becomes_search:
  "formatUrl (js ''https://localhost'') =
     Ok (js ''https://www.google.com/search?q=https%3A%2F%2Flocalhost'')"
  by code_simp

text \<open>
  Claim C8 asks that the formatter returns for every input, lone surrogates included.
  It returns exactly for the inputs of \<open>formatUrl_total_iff\<close>. A lone lead surrogate
  has no dot, reaches \<open>encodeURIComponent\<close> and raises \<open>URIError\<close>, which
  \<open>navigateTo\<close> does not catch; the earlier formatter raises on it as well
  (\<open>formatUrl_sv_lone_surrogate\<close>, stated after the theorem).
\<close>

theorem lone_surrogate_raises:
  "formatUrl [0xD800] = Throw URIError \<and>
   navigateTo [0xD800] oneTab = (Some URIError, oneTab)"
  by code_simp

lemma formatUrl_sv_lone_surrogate:
  "\<not> isValidUrl parse [0xD800] \<Longrightarrow> formatUrl_sv parse s [0xD800] = Throw URIError"
  by (simp add: formatUrl_sv_def trim_def isWhiteSpace_def includes_js_def isUnreserved_def
        isLeadSurrogate_def isTrailSurrogate_def prepend_def)

section \<open>The address bar and the Tab records\<close>

lemma updateUrlBar_focused: "urlInput_focused_sv s \<Longrightarrow> updateUrlBar u s = s"
  by (simp add: updateUrlBar_def)

text \<open>
  Claim C9 asks that \<open>switchTab\<close> leaves the address bar alone while it is focused
  with a pending edit. \<open>updateUrlBar\<close> of the earlier renderer has that guard
  (\<open>updateUrlBar_focused\<close>); \<open>switchTab\<close> never reads the focus. In the two-tab
  session with \<open>exam\<close> typed into the focused address bar, switching to tab 1 replaces
  the text by that tab's address, and the address bar is still focused.
\<close>

theorem switchTab_overwrites_focused_address_bar:
  "fst (switchTab (js ''tab-1'') typing) = None \<and>
   urlInput_focused typing \<and>
   urlInput_value typing = js ''exam'' \<and>
   urlInput_focused (snd (switchTab (js ''tab-1'') typing)) \<and>
   urlInput_value (snd (switchTab (js ''tab-1'') typing)) = js ''home.html''"
  by code_simp

text \<open>
  A Tab record is created with the address the tab was opened on and with \<open>isLoading\<close>
  true, and none of the handlers bound to a content view writes a Tab record. The
  earlier renderer does keep its \<open>state.isLoading\<close> in step with the loading events
  of its view.
\<close>

lemma createTab_record:
  "isLoading (last (tabs (snd (createTab opened a now s)))) \<and>
   url (last (tabs (snd (createTab opened a now s)))) = opened"
  by (simp add: createTab_tabs)

lemma handlers_never_write_records:
  "tabs (updateLoading tabId b s) = tabs s \<and>
   tabs (updateUrl tabId u s) = tabs s \<and>
   tabs (updateTitle tabId t s) = tabs s"
  by (simp add: updateLoading_def updateUrl_def updateTitle_def updateNavigationButtons_def
        Let_def split: option.splits)

lemma loading_state_sv:
  "isLoading_sv (showLoading p) \<and> \<not> isLoading_sv (hideLoading (showLoading p))"
  by (simp add: showLoading_def hideLoading_def)

text \<open>
  Claim C5 asks that the handlers bound to a tab's view keep its Tab record in step:
  \<open>isLoading\<close> true exactly from a load-started event to the matching load-finished
  event, and \<open>url\<close> the navigated address after every navigation event. In the
  one-tab session, after the view of tab 1 has reported a load started and finished, the
  record still has \<open>isLoading\<close> true; and after the view has navigated to
  \<open>https://a.b/\<close>, the record still has \<open>home.html\<close>, the address the tab was
  created with.
\<close>

theorem handlers_leave_records_stale:
  "map isLoading (tabs (updateLoading (js ''tab-1'') False (updateLoading (js ''tab-1'') True oneTab))) = [True] \<and>
   map url (tabs (updateUrl (js ''tab-1'') (js ''https://a.b/'') oneTab)) = [js ''home.html'']"
  by code_simp

section \<open>History navigation\<close>

lemma getActiveWebview_invoke:
  "getActiveWebview (invoke c s) = map_option (\<lambda>v. v\<lparr>calls := calls v @ [c]\<rparr>) (getActiveWebview s)"
  by (simp add: getActiveWebview_def getView_def invoke_def find_updateFirst)

lemma invoke_elsewhere: "(invoke c s)\<lparr>viewsContainer := viewsContainer s\<rparr> = s"
  by (simp add: invoke_def)

text \<open>
  Claim C10: \<open>goBack\<close> and \<open>goForward\<close> call the view's history method only when
  there is an active view and it answers \<open>canGoBack()\<close> (\<open>canGoForward()\<close>) with
  true; otherwise they change nothing. When they call, the call is recorded on the
  active view and nothing outside the views container changes. The earlier renderer has its one view always, and
  guards on the same answer.
\<close>

theorem history_navigation_guarded:
  "(\<not> (\<exists>w. getActiveWebview s = Some w \<and> canGoBack w) \<longrightarrow> goBack s = s) \<and>
   (\<not> (\<exists>w. getActiveWebview s = Some w \<and> canGoForward w) \<longrightarrow> goForward s = s) \<and>
   (\<forall>w. getActiveWebview s = Some w \<and> canGoBack w \<longrightarrow>
        getActiveWebview (goBack s) = Some (w\<lparr>calls := calls w @ [GoBack]\<rparr>) \<and>
        (goBack s)\<lparr>viewsContainer := viewsContainer s\<rparr> = s) \<and>
   (\<forall>w. getActiveWebview s = Some w \<and> canGoForward w \<longrightarrow>
        getActiveWebview (goForward s) = Some (w\<lparr>calls := calls w @ [GoForward]\<rparr>) \<and>
        (goForward s)\<lparr>viewsContainer := viewsContainer s\<rparr> = s) \<and>
   (\<not> canGoBack (webview_sv p) \<longrightarrow> goBack_sv p = p) \<and>
   (\<not> canGoForward (webview_sv p) \<longrightarrow> goForward_sv p = p) \<and>
   (canGoBack (webview_sv p) \<longrightarrow>
        goBack_sv p = p\<lparr>webview_sv := (webview_sv p)\<lparr>calls := calls (webview_sv p) @ [GoBack]\<rparr>\<rparr>) \<and>
   (canGoForward (webview_sv p) \<longrightarrow>
        goForward_sv p = p\<lparr>webview_sv := (webview_sv p)\<lparr>calls := calls (webview_sv p) @ [GoForward]\<rparr>\<rparr>)"
  by (auto simp: goBack_def goForward_def goBack_sv_def goForward_sv_def getActiveWebview_invoke
        invoke_elsewhere split: option.splits)


theorem history_navigation_guarded_witness:
  "goBack initialState = initialState \<and>
   goBack oneTab = oneTab \<and>
   goForward withHistory = withHistory \<and>
   getActiveWebview (goBack withHistory) =
     Some ((shownView (js ''tab-1'') (js ''home.html'') Flex)\<lparr>canGoBack := True, calls := [GoBack]\<rparr>) \<and>
   goBack_sv (page_sv False) = page_sv False \<and>
   calls (webview_sv (goBack_sv (page_sv True))) = [GoBack]"
proof -
  have a0: "getActiveWebview initialState = None"
    by code_simp
  have a1: "getActiveWebview oneTab = Some (shownView (js ''tab-1'') (js ''home.html'') Flex)"
    by code_simp
  have a2: "getActiveWebview withHistory =
              Some ((shownView (js ''tab-1'') (js ''home.html'') Flex)\<lparr>canGoBack := True\<rparr>)"
    by code_simp
  have c: "\<not> canGoBack (shownView i u d)" "\<not> canGoForward (shownView i u d)"
      "calls (shownView i u d) = []" for i u d
    by (simp_all add: shownView_def)
  have p: "webview_sv (page_sv b) = (shownView (js ''webview'') (js ''https://a.b'') Unset)\<lparr>canGoBack := b\<rparr>"
    for b
    by (simp add: page_sv_def)
  from history_navigation_guarded [of initialState "page_sv False"]
       history_navigation_guarded [of oneTab "page_sv True"]
       history_navigation_guarded [of withHistory "page_sv True"]
  show ?thesis
    by (simp add: a0 a1 a2 c p)
qed

end
